theory Spec2Isabelle
  imports
    Main
    "HOL-Library.AList"
    "HOL-Library.Char_ord"
    "HOL-Library.List_Lexorder"
begin

section \<open>The CSV merger: a shallow embedding of \<^verbatim>\<open>merger.py\<close>\<close>

text \<open>
  The development follows the class \<^verbatim>\<open>CSVMerger\<close>. Pure parts of the program are HOL
  functions; an exception is a value \<open>Inl e\<close> of a sum type; the dictionaries the program
  builds are records whose optional keys are \<open>option\<close> fields; the tables of pandas are
  records of a row count and an ordered list of named columns.
\<close>

subsection \<open>Exceptions\<close>

datatype py_error =
    FileNotFoundError string
  | NotADirectoryError string
  | KeyError string
  | IsADirectoryError
  | ParserError string

subsection \<open>Strings\<close>

text \<open>
  \<^verbatim>\<open>str.lower\<close>, restricted to the ASCII letters (a \<^typ>\<open>char\<close> is a byte), the
  substring test \<^verbatim>\<open>kw in s\<close>, and \<^verbatim>\<open>str(n)\<close> for the integers that the program
  interpolates into column names.
\<close>

definition lower_char :: "char \<Rightarrow> char" where
  "lower_char c =
     (let n = (of_char c :: nat) in if 65 \<le> n \<and> n \<le> 90 then char_of (n + 32) else c)"

definition lower :: "string \<Rightarrow> string" where
  "lower s = map lower_char s"

fun starts_with :: "string \<Rightarrow> string \<Rightarrow> bool" where
  "starts_with [] s = True"
| "starts_with (k # ks) [] = False"
| "starts_with (k # ks) (c # s) = (k = c \<and> starts_with ks s)"

fun contains :: "string \<Rightarrow> string \<Rightarrow> bool" where
  "contains kw [] = (kw = [])"
| "contains kw (c # s) = (starts_with kw (c # s) \<or> contains kw s)"

definition ends_with :: "string \<Rightarrow> string \<Rightarrow> bool" where
  "ends_with suf s = (length suf \<le> length s \<and> drop (length s - length suf) s = suf)"

definition digit_char :: "nat \<Rightarrow> char" where
  "digit_char d = char_of (48 + d)"

function str_nat :: "nat \<Rightarrow> string" where
  "str_nat n = (if n < 10 then [digit_char n] else str_nat (n div 10) @ [digit_char (n mod 10)])"
  by pat_completeness auto
termination
  by (relation "measure (\<lambda>n. n)") auto

declare str_nat.simps [simp del]

definition str_int :: "int \<Rightarrow> string" where
  "str_int i = (if i < 0 then CHR ''-'' # str_nat (nat (- i)) else str_nat (nat i))"

subsection \<open>The helpers of \<^verbatim>\<open>utils.py\<close>\<close>

text \<open>
  \<^verbatim>\<open>merger.py\<close> imports \<^verbatim>\<open>natural_sort_files\<close>, \<^verbatim>\<open>find_matching_column\<close> and
  \<^verbatim>\<open>extract_ex_number\<close> from \<^verbatim>\<open>utils.py\<close>, whose text is not at hand. The
  functions of \<^verbatim>\<open>merger.py\<close> below take the file sort and the exercise-number extractor
  as parameters \<open>nsort\<close> and \<open>ex\<close>, so that what is proved of them holds for every
  implementation of the two helpers. The column matcher is fixed, since the merge
  policy is stated in terms of it.
\<close>

text \<open>
  Modelled from the spec: \<^verbatim>\<open>find_matching_column\<close> of the missing \<^verbatim>\<open>utils.py\<close>. Section
  4.1: given a role keyword and an ordered sequence of column names, it returns the first
  column name whose lowercase form contains the role keyword as a substring, or the absent
  value if none match.
\<close>

definition find_matching_column :: "string \<Rightarrow> string list \<Rightarrow> string option" where
  "find_matching_column keyword columns = find (\<lambda>col. contains keyword (lower col)) columns"

definition is_digit :: "char \<Rightarrow> bool" where
  "is_digit c = (let n = (of_char c :: nat) in 48 \<le> n \<and> n \<le> 57)"

definition int_of_digits :: "string \<Rightarrow> int" where
  "int_of_digits ds = foldl (\<lambda>acc c. 10 * acc + (int (of_char c) - 48)) 0 ds"

text \<open>
  Modelled from the spec: \<^verbatim>\<open>extract_ex_number\<close> of the missing \<^verbatim>\<open>utils.py\<close>. Section
  4.1: it scans a filename for a numeric token following the case-insensitive marker
  \<^verbatim>\<open>Ex\<close> and returns the integer if found, else the absent value; section 8:
  \<^verbatim>\<open>Ex3_data.csv\<close> gives 3 and \<^verbatim>\<open>baseline.csv\<close> gives the absent value. It is used
  only to instantiate the parameter \<open>ex\<close> at concrete file names.
\<close>

fun extract_ex_number :: "string \<Rightarrow> int option" where
  "extract_ex_number [] = None"
| "extract_ex_number (c # s) =
     (if lower_char c = CHR ''e'' \<and> starts_with ''x'' (lower (take 1 s))
         \<and> takeWhile is_digit (drop 1 s) \<noteq> []
      then Some (int_of_digits (takeWhile is_digit (drop 1 s)))
      else extract_ex_number s)"

subsection \<open>Tables\<close>

text \<open>
  A \<^verbatim>\<open>pandas.DataFrame\<close> as \<^verbatim>\<open>pd.read_csv\<close> builds it from a file with a header row:
  the index is the default range \<open>0, \<dots>, nrows - 1\<close>, the column labels are strings, and
  every column holds one cell per row. A cell is a parsed field or the missing marker
  \<open>NaN\<close>; the numeric type of a column is not modelled. \<^verbatim>\<open>pd.read_csv\<close> renames
  repeated header names, so the labels of a loaded table are pairwise distinct:
  \<open>wf_df\<close> states both facts.
\<close>

datatype cell = NaN | Cell string

record dataframe =
  nrows :: nat
  cols :: "(string \<times> cell list) list"

definition columns :: "dataframe \<Rightarrow> string list" where
  "columns df = map fst (cols df)"

definition wf_df :: "dataframe \<Rightarrow> bool" where
  "wf_df df = (distinct (columns df) \<and> list_all (\<lambda>c. length (snd c) = nrows df) (cols df))"

text \<open>\<^verbatim>\<open>pd.DataFrame()\<close>: no rows and no columns.\<close>

definition DataFrame :: dataframe where
  "DataFrame = \<lparr>nrows = 0, cols = []\<rparr>"

text \<open>\<^verbatim>\<open>df.empty\<close>: true when either axis has length 0.\<close>

definition empty :: "dataframe \<Rightarrow> bool" where
  "empty df = (nrows df = 0 \<or> cols df = [])"

text \<open>\<^verbatim>\<open>df[col]\<close>: the column as a series over the table's index; a label that is not a
  column raises \<^verbatim>\<open>KeyError\<close>.\<close>

definition getitem :: "dataframe \<Rightarrow> string \<Rightarrow> py_error + cell list" where
  "getitem df col = (case map_of (cols df) col of None \<Rightarrow> Inl (KeyError col) | Some vs \<Rightarrow> Inr vs)"

text \<open>
  \<^verbatim>\<open>Series.reindex\<close> to the range index of length \<open>n\<close>: labels are row positions, so the
  first \<open>n\<close> values are kept and the rows the series lacks are filled with \<open>NaN\<close>.
\<close>

definition reindex :: "nat \<Rightarrow> cell list \<Rightarrow> cell list" where
  "reindex n vs = take n vs @ replicate (n - length vs) NaN"

text \<open>
  \<^verbatim>\<open>result[key] = series\<close>. pandas first makes sure the frame has an index: a frame with
  no rows that is given a series with at least one value takes over the index of the
  series, its existing columns being filled with \<open>NaN\<close>
  (\<^verbatim>\<open>DataFrame._ensure_valid_index\<close>). The series is then aligned with the index of the
  frame, and stored in place when \<open>key\<close> is already a column, appended as the last column
  otherwise.
\<close>

definition ensure_valid_index :: "dataframe \<Rightarrow> cell list \<Rightarrow> dataframe" where
  "ensure_valid_index df vs =
     (if nrows df = 0 \<and> 0 < length vs
      then \<lparr>nrows = length vs, cols = map (\<lambda>(c, xs). (c, reindex (length vs) xs)) (cols df)\<rparr>
      else df)"

definition setitem :: "dataframe \<Rightarrow> string \<Rightarrow> cell list \<Rightarrow> dataframe" where
  "setitem df key vs =
     (let df' = ensure_valid_index df vs;
          arr = reindex (nrows df') vs
      in if key \<in> set (columns df')
         then df'\<lparr>cols := map (\<lambda>(c, xs). if c = key then (c, arr) else (c, xs)) (cols df')\<rparr>
         else df'\<lparr>cols := cols df' @ [(key, arr)]\<rparr>)"

subsection \<open>\<^verbatim>\<open>CSVMerger.merge_dataframes\<close>\<close>

text \<open>Truthiness, as the conditions \<^verbatim>\<open>if ex_num\<close> and \<^verbatim>\<open>if x_col\<close> test it: \<^verbatim>\<open>None\<close>,
  the integer 0 and the empty string are false.\<close>

definition truthy_int :: "int option \<Rightarrow> bool" where
  "truthy_int v = (case v of None \<Rightarrow> False | Some n \<Rightarrow> n \<noteq> 0)"

definition truthy_str :: "string option \<Rightarrow> bool" where
  "truthy_str v = (case v of None \<Rightarrow> False | Some s \<Rightarrow> s \<noteq> [])"

text \<open>Lines 116 and 117: the suffix of the table at position \<open>idx\<close>.\<close>

definition suffix_of :: "(string \<Rightarrow> int option) \<Rightarrow> nat \<Rightarrow> string \<Rightarrow> string" where
  "suffix_of ex idx file_name =
     (let ex_num = ex file_name
      in if truthy_int ex_num then ''_Ex'' @ str_int (the ex_num) else ''_'' @ str_nat idx)"

text \<open>Lines 120 to 131: the dictionary \<^verbatim>\<open>columns_to_add\<close>, from the matched column of the
  table to the new name. A Python dictionary keeps one entry per key, in the order of
  first insertion: \<open>AList.update\<close>.\<close>

definition columns_to_add :: "string list \<Rightarrow> string \<Rightarrow> (string \<times> string) list" where
  "columns_to_add names suffix =
     (let x_col = find_matching_column ''x'' names;
          y_col = find_matching_column ''y'' names;
          z_col = find_matching_column ''z'' names;
          d0 = [];
          d1 = (if truthy_str x_col then AList.update (the x_col) (''X'' @ suffix) d0 else d0);
          d2 = (if truthy_str y_col then AList.update (the y_col) (''Y'' @ suffix) d1 else d1);
          d3 = (if truthy_str z_col then AList.update (the z_col) (''Z'' @ suffix) d2 else d2)
      in d3)"

text \<open>Lines 134 and 135: \<^verbatim>\<open>for orig_col, new_col in columns_to_add.items()\<close>.\<close>

fun add_columns :: "dataframe \<Rightarrow> dataframe \<Rightarrow> (string \<times> string) list \<Rightarrow> py_error + dataframe" where
  "add_columns result df [] = Inr result"
| "add_columns result df ((orig_col, new_col) # items) =
     (case getitem df orig_col of
        Inl e \<Rightarrow> Inl e
      | Inr series \<Rightarrow> add_columns (setitem result new_col series) df items)"

text \<open>The body of the loop of line 114, for one table and its file name.\<close>

definition merge_step :: "(string \<Rightarrow> int option) \<Rightarrow> dataframe \<Rightarrow> nat \<Rightarrow> dataframe \<Rightarrow> string
    \<Rightarrow> py_error + dataframe" where
  "merge_step ex result idx df file_name =
     add_columns result df (columns_to_add (columns df) (suffix_of ex idx file_name))"

text \<open>The loop of line 114 over \<^verbatim>\<open>enumerate(zip(dfs[1:], file_names[1:]), start=2)\<close>.\<close>

fun merge_loop :: "(string \<Rightarrow> int option) \<Rightarrow> dataframe \<Rightarrow> nat \<Rightarrow> (dataframe \<times> string) list
    \<Rightarrow> py_error + dataframe" where
  "merge_loop ex result idx [] = Inr result"
| "merge_loop ex result idx ((df, file_name) # rest) =
     (case merge_step ex result idx df file_name of
        Inl e \<Rightarrow> Inl e
      | Inr result' \<Rightarrow> merge_loop ex result' (Suc idx) rest)"

definition merge_dataframes :: "(string \<Rightarrow> int option) \<Rightarrow> dataframe list \<Rightarrow> string list
    \<Rightarrow> py_error + dataframe" where
  "merge_dataframes ex dfs file_names =
     (case dfs of
        [] \<Rightarrow> Inr DataFrame
      | first_df # _ \<Rightarrow>
          (let result = first_df;
               time_col = find_matching_column ''channel'' (columns first_df)
           in if time_col = None then Inr DataFrame
              else merge_loop ex result 2 (zip (drop 1 dfs) (drop 1 file_names))))"

subsection \<open>\<^verbatim>\<open>merge_dataframes\<close> over a store of objects\<close>

text \<open>
  Python passes tables by reference, and \<^verbatim>\<open>result[new_col] = ...\<close> updates the object
  \<^verbatim>\<open>result\<close> in place. To say which objects the merge changes, the same function is
  given over a store: an address holds a table, the addresses below \<open>fresh\<close> are the
  objects that exist, \<^verbatim>\<open>dfs[0].copy()\<close> and \<^verbatim>\<open>pd.DataFrame()\<close> allocate a new object,
  and an assignment to a column writes the store at the address of \<^verbatim>\<open>result\<close>.
\<close>

type_synonym addr = nat

record heap =
  objs :: "addr \<Rightarrow> dataframe"
  fresh :: addr

definition alloc :: "heap \<Rightarrow> dataframe \<Rightarrow> addr \<times> heap" where
  "alloc h df = (fresh h, \<lparr>objs = (objs h)(fresh h := df), fresh = Suc (fresh h)\<rparr>)"

definition store :: "heap \<Rightarrow> addr \<Rightarrow> dataframe \<Rightarrow> heap" where
  "store h a df = \<lparr>objs = (objs h)(a := df), fresh = fresh h\<rparr>"

definition setitem_heap :: "heap \<Rightarrow> addr \<Rightarrow> string \<Rightarrow> cell list \<Rightarrow> heap" where
  "setitem_heap h a key vs = store h a (setitem (objs h a) key vs)"

fun add_columns_heap :: "heap \<Rightarrow> addr \<Rightarrow> addr \<Rightarrow> (string \<times> string) list \<Rightarrow> py_error + heap" where
  "add_columns_heap h result df [] = Inr h"
| "add_columns_heap h result df ((orig_col, new_col) # items) =
     (case getitem (objs h df) orig_col of
        Inl e \<Rightarrow> Inl e
      | Inr series \<Rightarrow> add_columns_heap (setitem_heap h result new_col series) result df items)"

fun merge_loop_heap :: "(string \<Rightarrow> int option) \<Rightarrow> heap \<Rightarrow> addr \<Rightarrow> nat \<Rightarrow> (addr \<times> string) list
    \<Rightarrow> py_error + heap" where
  "merge_loop_heap ex h result idx [] = Inr h"
| "merge_loop_heap ex h result idx ((df, file_name) # rest) =
     (case add_columns_heap h result df
             (columns_to_add (columns (objs h df)) (suffix_of ex idx file_name)) of
        Inl e \<Rightarrow> Inl e
      | Inr h' \<Rightarrow> merge_loop_heap ex h' result (Suc idx) rest)"

definition merge_dataframes_heap :: "(string \<Rightarrow> int option) \<Rightarrow> heap \<Rightarrow> addr list \<Rightarrow> string list
    \<Rightarrow> py_error + addr \<times> heap" where
  "merge_dataframes_heap ex h dfs file_names =
     (case dfs of
        [] \<Rightarrow> Inr (alloc h DataFrame)
      | first_df # _ \<Rightarrow>
          (let (result, h1) = alloc h (objs h first_df);
               time_col = find_matching_column ''channel'' (columns (objs h1 first_df))
           in if time_col = None then Inr (alloc h1 DataFrame)
              else (case merge_loop_heap ex h1 result 2 (zip (drop 1 dfs) (drop 1 file_names)) of
                      Inl e \<Rightarrow> Inl e
                    | Inr h2 \<Rightarrow> Inr (result, h2))))"

subsection \<open>The file system\<close>

text \<open>
  A file is modelled by what \<^verbatim>\<open>pd.read_csv\<close> makes of it: a table, or an exception. A
  directory lists its entries by name, in the order in which \<^verbatim>\<open>iterdir\<close> and
  \<^verbatim>\<open>glob\<close> discover them. The program looks up one path, the root; everything below is
  reached through directory entries, and a \<^verbatim>\<open>Path\<close> below the root is the pair of its
  name and its node.

  The output side is a separate store, from the path of a directory to the tables written
  into it by file name; \<open>None\<close> is a directory that does not exist. The program never reads
  it. \<^verbatim>\<open>mkdir\<close> and \<^verbatim>\<open>to_csv\<close> are taken to succeed: failures of the operating system
  (permissions, a missing parent directory, a full disk) are outside this model.
\<close>

datatype csv_read = Loaded dataframe | Unreadable py_error

datatype fsnode = File csv_read | Dir "(string \<times> fsnode) list"

type_synonym filesystem = "string \<Rightarrow> fsnode option"

type_synonym path = "string \<times> fsnode"

type_synonym outputs = "string \<Rightarrow> (string \<Rightarrow> dataframe option) option"

definition exists :: "filesystem \<Rightarrow> string \<Rightarrow> bool" where
  "exists fs p = (fs p \<noteq> None)"

fun is_dir_node :: "fsnode \<Rightarrow> bool" where
  "is_dir_node (Dir _) = True"
| "is_dir_node (File _) = False"

definition is_dir :: "filesystem \<Rightarrow> string \<Rightarrow> bool" where
  "is_dir fs p = (case fs p of None \<Rightarrow> False | Some n \<Rightarrow> is_dir_node n)"

definition iterdir :: "filesystem \<Rightarrow> string \<Rightarrow> py_error + path list" where
  "iterdir fs p =
     (case fs p of
        None \<Rightarrow> Inl (FileNotFoundError p)
      | Some (File _) \<Rightarrow> Inl (NotADirectoryError p)
      | Some (Dir entries) \<Rightarrow> Inr entries)"

text \<open>\<^verbatim>\<open>class_folder.glob('*.csv')\<close>: the entries whose name ends in \<^verbatim>\<open>.csv\<close>, files and
  directories alike.\<close>

fun glob_csv :: "fsnode \<Rightarrow> path list" where
  "glob_csv (Dir entries) = filter (\<lambda>item. ends_with ''.csv'' (fst item)) entries"
| "glob_csv (File _) = []"

text \<open>\<^verbatim>\<open>pd.read_csv(file_path, float_precision='high')\<close>.\<close>

fun read_csv :: "fsnode \<Rightarrow> py_error + dataframe" where
  "read_csv (File (Loaded df)) = Inr df"
| "read_csv (File (Unreadable e)) = Inl e"
| "read_csv (Dir _) = Inl IsADirectoryError"

text \<open>\<^verbatim>\<open>output_dir.mkdir(exist_ok=True)\<close> and \<^verbatim>\<open>df.to_csv(output_dir / name, index=False)\<close>.\<close>

definition mkdir :: "outputs \<Rightarrow> string \<Rightarrow> outputs" where
  "mkdir out d = (case out d of None \<Rightarrow> out(d := Some (\<lambda>_. None)) | Some _ \<Rightarrow> out)"

definition files_in :: "outputs \<Rightarrow> string \<Rightarrow> string \<Rightarrow> dataframe option" where
  "files_in out d = (case out d of None \<Rightarrow> (\<lambda>_. None) | Some files \<Rightarrow> files)"

definition to_csv :: "outputs \<Rightarrow> string \<Rightarrow> string \<Rightarrow> dataframe \<Rightarrow> outputs" where
  "to_csv out d name df = out(d := Some ((files_in out d)(name := Some df)))"

subsection \<open>\<^verbatim>\<open>CSVMerger\<close>: construction, discovery, safe reading\<close>

record merger =
  root_path :: string
  project_dir :: string

text \<open>\<^verbatim>\<open>__init__\<close>; \<open>here\<close> is \<^verbatim>\<open>Path(__file__).parent\<close>.\<close>

definition init :: "filesystem \<Rightarrow> string \<Rightarrow> string \<Rightarrow> py_error + merger" where
  "init fs here root =
     (if \<not> exists fs root then Inl (FileNotFoundError root)
      else if \<not> is_dir fs root then Inl (NotADirectoryError root)
      else Inr \<lparr>root_path = root, project_dir = here\<rparr>)"

definition get_class_folders :: "filesystem \<Rightarrow> merger \<Rightarrow> py_error + path list" where
  "get_class_folders fs self =
     (case iterdir fs (root_path self) of
        Inl e \<Rightarrow> Inl e
      | Inr items \<Rightarrow> Inr (filter (\<lambda>item. is_dir_node (snd item)) items))"

definition get_csv_files :: "(path list \<Rightarrow> path list) \<Rightarrow> path \<Rightarrow> path list" where
  "get_csv_files nsort class_folder = nsort (glob_csv (snd class_folder))"

text \<open>Lines 75 to 82: \<^verbatim>\<open>except Exception\<close> turns every error of the read into the pair of
  an empty table and \<^verbatim>\<open>False\<close>.\<close>

definition read_csv_safely :: "path \<Rightarrow> dataframe \<times> bool" where
  "read_csv_safely file_path =
     (case read_csv (snd file_path) of
        Inr df \<Rightarrow> (df, True)
      | Inl e \<Rightarrow> (DataFrame, False))"

subsection \<open>\<^verbatim>\<open>CSVMerger.process_class\<close>\<close>

text \<open>
  The dictionaries of \<^verbatim>\<open>process_class\<close>. The keys \<^verbatim>\<open>total_rows\<close> and
  \<^verbatim>\<open>total_columns\<close> are optional fields: the dictionary returned at line 158 does not
  have them, and \<^verbatim>\<open>meta['total_rows']\<close> on it raises \<^verbatim>\<open>KeyError\<close>.
\<close>

record file_info =
  fi_name :: string
  fi_ex_number :: "int option"
  fi_rows :: nat
  fi_columns :: nat

record metadata =
  class_name :: string
  files :: "file_info list"
  total_rows :: "nat option"
  total_columns :: "nat option"
  merged_df :: dataframe

text \<open>The loop of lines 172 to 188, on the three lists it appends to.\<close>

fun read_files :: "(string \<Rightarrow> int option) \<Rightarrow> path list
    \<Rightarrow> dataframe list \<times> string list \<times> file_info list
    \<Rightarrow> dataframe list \<times> string list \<times> file_info list" where
  "read_files ex [] acc = acc"
| "read_files ex (csv_file # rest) (dataframes, file_names, infos) =
     (let ex_num = ex (fst csv_file);
          (df, success) = read_csv_safely csv_file
      in if success
         then read_files ex rest
                (dataframes @ [df], file_names @ [fst csv_file],
                 infos @ [\<lparr>fi_name = fst csv_file, fi_ex_number = ex_num,
                            fi_rows = nrows df, fi_columns = length (columns df)\<rparr>])
         else read_files ex rest (dataframes, file_names, infos))"

text \<open>The descriptor of lines 183 to 188, for a file that loaded.\<close>

definition info_of :: "(string \<Rightarrow> int option) \<Rightarrow> path \<Rightarrow> file_info" where
  "info_of ex p = \<lparr>fi_name = fst p, fi_ex_number = ex (fst p),
      fi_rows = nrows (fst (read_csv_safely p)),
      fi_columns = length (columns (fst (read_csv_safely p)))\<rparr>"

definition process_class :: "(path list \<Rightarrow> path list) \<Rightarrow> (string \<Rightarrow> int option) \<Rightarrow> path
    \<Rightarrow> py_error + metadata" where
  "process_class nsort ex class_folder =
     (let name = fst class_folder;
          csv_files = get_csv_files nsort class_folder
      in if csv_files = []
         then Inr \<lparr>class_name = name, files = [], total_rows = None, total_columns = None,
                   merged_df = DataFrame\<rparr>
         else
           (let (dataframes, file_names, infos) = read_files ex csv_files ([], [], [])
            in if dataframes \<noteq> []
               then (case merge_dataframes ex dataframes file_names of
                       Inl e \<Rightarrow> Inl e
                     | Inr merged \<Rightarrow>
                         Inr \<lparr>class_name = name, files = infos,
                              total_rows = Some (nrows merged),
                              total_columns = Some (length (columns merged)),
                              merged_df = merged\<rparr>)
               else Inr \<lparr>class_name = name, files = infos, total_rows = Some 0,
                         total_columns = Some 0, merged_df = DataFrame\<rparr>))"

subsection \<open>\<^verbatim>\<open>CSVMerger.print_summary\<close> and \<^verbatim>\<open>CSVMerger.run\<close>\<close>

text \<open>The lines of the summary, by the values they interpolate.\<close>

datatype summary_line =
    ClassLine string
  | FilesProcessed nat
  | TotalRows nat
  | TotalColumns nat
  | FileDetails
  | FileDetail string string nat nat

definition file_detail :: "file_info \<Rightarrow> summary_line" where
  "file_detail fi =
     FileDetail (if truthy_int (fi_ex_number fi) then ''Ex'' @ str_int (the (fi_ex_number fi))
                 else ''Unknown'')
       (fi_name fi) (fi_rows fi) (fi_columns fi)"

definition summary_of :: "metadata \<Rightarrow> py_error + summary_line list" where
  "summary_of meta =
     (case total_rows meta of
        None \<Rightarrow> Inl (KeyError ''total_rows'')
      | Some r \<Rightarrow>
          (case total_columns meta of
             None \<Rightarrow> Inl (KeyError ''total_columns'')
           | Some c \<Rightarrow>
               Inr ([ClassLine (class_name meta), FilesProcessed (length (files meta)),
                     TotalRows r, TotalColumns c]
                    @ (if files meta \<noteq> [] then FileDetails # map file_detail (files meta)
                       else []))))"

fun print_summary :: "metadata list \<Rightarrow> py_error + summary_line list" where
  "print_summary [] = Inr []"
| "print_summary (meta # rest) =
     (case summary_of meta of
        Inl e \<Rightarrow> Inl e
      | Inr ls \<Rightarrow> (case print_summary rest of Inl e \<Rightarrow> Inl e | Inr ls' \<Rightarrow> Inr (ls @ ls')))"

text \<open>The loop of lines 236 to 244: the classes in order, the store of outputs threaded
  through, the list \<^verbatim>\<open>all_metadata\<close> appended to.\<close>

fun run_loop :: "(path list \<Rightarrow> path list) \<Rightarrow> (string \<Rightarrow> int option) \<Rightarrow> string \<Rightarrow> path list
    \<Rightarrow> metadata list \<Rightarrow> outputs \<Rightarrow> (py_error + metadata list) \<times> outputs" where
  "run_loop nsort ex output_dir [] all_metadata out = (Inr all_metadata, out)"
| "run_loop nsort ex output_dir (class_folder # rest) all_metadata out =
     (case process_class nsort ex class_folder of
        Inl e \<Rightarrow> (Inl e, out)
      | Inr meta \<Rightarrow>
          run_loop nsort ex output_dir rest (all_metadata @ [meta])
            (if \<not> empty (merged_df meta)
             then to_csv out output_dir (class_name meta @ ''_merged.csv'') (merged_df meta)
             else out))"

text \<open>Lines 214 to 218: the output directory, \<^verbatim>\<open>project_dir / 'outputs'\<close> by default.\<close>

definition output_dir_of :: "merger \<Rightarrow> string option \<Rightarrow> string" where
  "output_dir_of self output_dir_arg =
     (case output_dir_arg of None \<Rightarrow> project_dir self @ ''/outputs'' | Some d \<Rightarrow> d)"

text \<open>\<^verbatim>\<open>run\<close>: the result is the exception that ends the run, or the summary printed,
  together with the store of outputs as the run leaves it. \<^verbatim>\<open>sorted(class_folders)\<close>
  orders the paths of one directory by their names.\<close>

definition run :: "(path list \<Rightarrow> path list) \<Rightarrow> (string \<Rightarrow> int option) \<Rightarrow> filesystem \<Rightarrow> merger
    \<Rightarrow> string option \<Rightarrow> outputs \<Rightarrow> (py_error + summary_line list) \<times> outputs" where
  "run nsort ex fs self output_dir_arg out =
     (let output_dir = output_dir_of self output_dir_arg;
          out1 = mkdir out output_dir
      in case get_class_folders fs self of
           Inl e \<Rightarrow> (Inl e, out1)
         | Inr class_folders \<Rightarrow>
             if class_folders = [] then (Inr [], out1)
             else (case run_loop nsort ex output_dir (sort_key fst class_folders) [] out1 of
                     (Inl e, out2) \<Rightarrow> (Inl e, out2)
                   | (Inr all_metadata, out2) \<Rightarrow> (print_summary all_metadata, out2)))"

subsection \<open>The columns a table is expected to contribute\<close>


definition role_columns :: "string list \<Rightarrow> string \<Rightarrow> string list" where
  "role_columns names suffix =
     (if find_matching_column ''x'' names = None then [] else [''X'' @ suffix]) @
     (if find_matching_column ''y'' names = None then [] else [''Y'' @ suffix]) @
     (if find_matching_column ''z'' names = None then [] else [''Z'' @ suffix])"

section \<open>Properties\<close>

subsection \<open>The column matcher and the merge never raise\<close>

lemma find_matching_column_Some:
  "find_matching_column k names = Some c \<Longrightarrow> c \<in> set names \<and> contains k (lower c)"
  by (auto simp: find_matching_column_def find_Some_iff)

lemma find_matching_column_None:
  "find_matching_column k names = None \<longleftrightarrow> (\<forall>c\<in>set names. \<not> contains k (lower c))"
  by (auto simp: find_matching_column_def find_None_iff)



lemma getitem_column: "c \<in> set (columns df) \<Longrightarrow> \<exists>vs. getitem df c = Inr vs \<and> (c, vs) \<in> set (cols df)"
  unfolding getitem_def columns_def
  by (cases "map_of (cols df) c") (auto simp: map_of_eq_None_iff dest: map_of_SomeD)

lemma update_keys: "fst ` set (AList.update k v al) = insert k (fst ` set al)"
  by (induction al) auto

lemma columns_to_add_keys:
  "(orig, new) \<in> set (columns_to_add names suffix) \<Longrightarrow> orig \<in> set names"
proof -
  have k: "\<And>k. truthy_str (find_matching_column k names) \<Longrightarrow> the (find_matching_column k names) \<in> set names"
    by (auto simp: truthy_str_def split: option.splits dest: find_matching_column_Some)
  assume "(orig, new) \<in> set (columns_to_add names suffix)"
  then have "orig \<in> fst ` set (columns_to_add names suffix)" by force
  then show ?thesis
    unfolding columns_to_add_def Let_def
    by (auto simp: update_keys k split: if_splits)
qed

lemma add_columns_total:
  "\<forall>item\<in>set items. fst item \<in> set (columns df) \<Longrightarrow> \<exists>r. add_columns result df items = Inr r"
proof (induction items arbitrary: result)
  case Nil
  then show ?case by simp
next
  case (Cons item items)
  obtain orig new where item: "item = (orig, new)" by (cases item)
  with Cons.prems obtain vs where "getitem df orig = Inr vs"
    using getitem_column by fastforce
  with Cons item show ?case by simp
qed

lemma merge_step_total: "\<exists>r. merge_step ex result idx df file_name = Inr r"
  unfolding merge_step_def
  by (rule add_columns_total) (auto dest: columns_to_add_keys)

lemma merge_loop_total: "\<exists>r. merge_loop ex result idx zs = Inr r"
proof (induction zs arbitrary: result idx)
  case Nil
  then show ?case by simp
next
  case (Cons z zs)
  obtain df fn where z: "z = (df, fn)" by (cases z)
  obtain r where "merge_step ex result idx df fn = Inr r"
    using merge_step_total by blast
  with Cons z show ?case by simp
qed

lemma merge_dataframes_total: "\<exists>r. merge_dataframes ex dfs file_names = Inr r"
proof (cases dfs)
  case Nil
  then show ?thesis by (simp add: merge_dataframes_def)
next
  case (Cons d ds)
  show ?thesis
  proof (cases "find_matching_column ''channel'' (columns d)")
    case None
    with Cons show ?thesis by (simp add: merge_dataframes_def)
  next
    case (Some c)
    with Cons merge_loop_total [of ex d 2 "zip ds (drop 1 file_names)"]
    show ?thesis by (simp add: merge_dataframes_def)
  qed
qed






lemma reindex_nth:
  "i < n \<Longrightarrow> reindex n vs ! i = (if i < length vs then vs ! i else NaN)"
  by (auto simp: reindex_def nth_append)

lemma length_reindex: "length (reindex n vs) = n"
  by (simp add: reindex_def)

subsection \<open>The merge: empty input and missing channel column\<close>

text \<open>
  Claim C4. If the sequence of tables is empty, or if the first table has no column whose
  lowercase name contains \<^verbatim>\<open>channel\<close>, the merge returns the empty table
  \<^verbatim>\<open>pd.DataFrame()\<close>; it returns, and raises nothing.
\<close>

theorem merge_empty_or_no_channel:
  assumes "dfs = [] \<or> (\<forall>col\<in>set (columns (hd dfs)). \<not> contains ''channel'' (lower col))"
  shows "merge_dataframes ex dfs file_names = Inr DataFrame"
proof (cases dfs)
  case Nil
  then show ?thesis by (simp add: merge_dataframes_def)
next
  case (Cons d ds)
  with assms have "find_matching_column ''channel'' (columns d) = None"
    by (simp add: find_matching_column_None)
  with Cons show ?thesis by (simp add: merge_dataframes_def)
qed

theorem merge_empty_or_no_channel_witness:
  "merge_dataframes extract_ex_number [] [] = Inr DataFrame \<and>
   merge_dataframes extract_ex_number
     [\<lparr>nrows = 1, cols = [(''Time'', [Cell ''0'']), (''X'', [Cell ''5''])]\<rparr>,
      \<lparr>nrows = 1, cols = [(''Channel'', [Cell ''0'']), (''X'', [Cell ''7''])]\<rparr>]
     [''Ex1.csv'', ''Ex2.csv''] = Inr DataFrame"
proof
  show "merge_dataframes extract_ex_number [] [] = Inr DataFrame"
    using merge_empty_or_no_channel [of "[]" extract_ex_number "[]"] by simp
next
  have "\<forall>col\<in>set (columns (hd [\<lparr>nrows = 1, cols = [(''Time'', [Cell ''0'']), (''X'', [Cell ''5''])]\<rparr>,
      \<lparr>nrows = 1, cols = [(''Channel'', [Cell ''0'']), (''X'', [Cell ''7''])]\<rparr>])).
        \<not> contains ''channel'' (lower col)"
    by (simp add: columns_def lower_def lower_char_def)
  then show "merge_dataframes extract_ex_number
     [\<lparr>nrows = 1, cols = [(''Time'', [Cell ''0'']), (''X'', [Cell ''5''])]\<rparr>,
      \<lparr>nrows = 1, cols = [(''Channel'', [Cell ''0'']), (''X'', [Cell ''7''])]\<rparr>]
     [''Ex1.csv'', ''Ex2.csv''] = Inr DataFrame"
    using merge_empty_or_no_channel by blast
qed

subsection \<open>The merge of a single table\<close>

text \<open>
  Claim C5, as amended. For a single table that has a channel column, the merge yields a
  copy of that table: the same columns, the same rows. (A single table without a channel
  column yields the empty table, by claim C4.)
\<close>

theorem merge_single:
  assumes "find_matching_column ''channel'' (columns df) \<noteq> None"
  shows "merge_dataframes ex [df] file_names = Inr df"
  using assms by (auto simp: merge_dataframes_def)

theorem merge_single_witness:
  "merge_dataframes extract_ex_number
     [\<lparr>nrows = 1, cols = [(''Channel'', [Cell ''0'']), (''X'', [Cell ''5''])]\<rparr>] [''Ex1.csv'']
   = Inr \<lparr>nrows = 1, cols = [(''Channel'', [Cell ''0'']), (''X'', [Cell ''5''])]\<rparr>"
proof -
  have "find_matching_column ''channel''
          (columns \<lparr>nrows = 1, cols = [(''Channel'', [Cell ''0'']), (''X'', [Cell ''5''])]\<rparr>) \<noteq> None"
    by code_simp
  then show ?thesis by (rule merge_single)
qed

text \<open>The claim as stated fails for a single table without a channel column: the merge
  returns the empty table, not a copy.\<close>

theorem merge_single_counterexample:
  "merge_dataframes extract_ex_number
     [\<lparr>nrows = 1, cols = [(''Time'', [Cell ''0'']), (''X'', [Cell ''5''])]\<rparr>] [''Ex1.csv'']
   = Inr \<lparr>nrows = 0, cols = []\<rparr>"
  by code_simp

subsection \<open>The suffix and the names of the added columns\<close>

lemma suffix_of_cases:
  "suffix_of ex idx file_name =
     (case ex file_name of
        None \<Rightarrow> ''_'' @ str_nat idx
      | Some n \<Rightarrow> if n = 0 then ''_'' @ str_nat idx else ''_Ex'' @ str_int n)"
  by (simp add: suffix_of_def truthy_int_def split: option.splits)

lemma columns_ensure_valid_index: "map fst (cols (ensure_valid_index df vs)) = map fst (cols df)"
  by (simp add: ensure_valid_index_def case_prod_unfold comp_def)

lemma columns_setitem:
  "columns (setitem df key vs) =
     (if key \<in> set (columns df) then columns df else columns df @ [key])"
proof -
  let ?e = "ensure_valid_index df vs"
  have m: "map fst (map (\<lambda>(c, xs). if c = key then (c, a) else (c, xs)) l) = map fst l"
    for a :: "cell list" and l :: "(string \<times> cell list) list"
    by (induction l) auto
  have c: "columns ?e = columns df"
    by (simp add: columns_def columns_ensure_valid_index)
  show ?thesis
  proof (cases "key \<in> set (columns df)")
    case True
    with c have "key \<in> set (columns ?e)" by simp
    then have "columns (setitem df key vs) = columns ?e"
      unfolding setitem_def Let_def by (simp add: columns_def m del: map_map)
    with c True show ?thesis by simp
  next
    case False
    with c have "key \<notin> set (columns ?e)" by simp
    then have "columns (setitem df key vs) = columns ?e @ [key]"
      unfolding setitem_def Let_def by (simp add: columns_def)
    with c False show ?thesis by simp
  qed
qed



lemma length_update: "length (AList.update k v al) \<le> Suc (length al)"
  by (induction al) auto




lemma length_role_columns: "length (role_columns names suffix) \<le> 3"
  by (simp add: role_columns_def)

lemma merge_loop_snoc:
  "merge_loop ex result idx (zs @ [(df, file_name)]) =
     (case merge_loop ex result idx zs of
        Inl e \<Rightarrow> Inl e
      | Inr r \<Rightarrow> merge_step ex r (idx + length zs) df file_name)"
proof (induction zs arbitrary: result idx)
  case Nil
  then show ?case by (simp split: sum.splits)
next
  case (Cons z zs)
  obtain d f where z: "z = (d, f)" by (cases z)
  with Cons show ?case by (simp split: sum.splits)
qed

lemma merge_dataframes_snoc:
  assumes "dfs \<noteq> []" and "length file_names = length dfs"
      and "find_matching_column ''channel'' (columns (hd dfs)) \<noteq> None"
  shows "merge_dataframes ex (dfs @ [df]) (file_names @ [file_name]) =
     (case merge_dataframes ex dfs file_names of
        Inl e \<Rightarrow> Inl e
      | Inr r \<Rightarrow> merge_step ex r (Suc (length dfs)) df file_name)"
proof -
  from assms(1) obtain d ds where dfs: "dfs = d # ds" by (cases dfs) auto
  with assms(2) obtain f fs where fns: "file_names = f # fs" by (cases file_names) auto
  from dfs fns assms(2) have len: "length fs = length ds" by simp
  from dfs assms(3) have ch: "find_matching_column ''channel'' (columns d) \<noteq> None" by simp
  have z: "zip (ds @ [df]) (fs @ [file_name]) = zip ds fs @ [(df, file_name)]"
    using len by simp
  have n: "2 + length (zip ds fs) = Suc (length dfs)"
    using len dfs by simp
  from ch have "merge_dataframes ex (dfs @ [df]) (file_names @ [file_name]) =
      merge_loop ex d 2 (zip ds fs @ [(df, file_name)])"
    by (auto simp: merge_dataframes_def dfs fns z)
  also have "\<dots> = (case merge_loop ex d 2 (zip ds fs) of
        Inl e \<Rightarrow> Inl e
      | Inr r \<Rightarrow> merge_step ex r (Suc (length dfs)) df file_name)"
    unfolding merge_loop_snoc n ..
  also from ch have "merge_loop ex d 2 (zip ds fs) = merge_dataframes ex dfs file_names"
    by (auto simp: merge_dataframes_def dfs fns)
  finally show ?thesis .
qed

subsection \<open>Well-formed tables stay well formed\<close>

lemma wf_DataFrame: "wf_df DataFrame"
  by (simp add: wf_df_def DataFrame_def columns_def)

lemma wf_ensure_valid_index: "wf_df df \<Longrightarrow> wf_df (ensure_valid_index df vs)"
  by (auto simp: wf_df_def ensure_valid_index_def columns_def list_all_iff length_reindex
      case_prod_unfold comp_def)

lemma wf_setitem:
  assumes "wf_df df"
  shows "wf_df (setitem df key vs)"
proof -
  let ?e = "ensure_valid_index df vs"
  from assms have e: "wf_df ?e" by (rule wf_ensure_valid_index)
  have c: "columns (setitem df key vs) =
      (if key \<in> set (columns df) then columns df else columns df @ [key])"
    by (rule columns_setitem)
  from assms have d: "distinct (columns (setitem df key vs))"
    unfolding c by (simp add: wf_df_def)
  have n: "nrows (setitem df key vs) = nrows ?e"
    by (simp add: setitem_def Let_def)
  from e have "list_all (\<lambda>c. length (snd c) = nrows ?e) (cols (setitem df key vs))"
    by (auto simp: setitem_def Let_def wf_df_def list_all_iff length_reindex)
  with d n show ?thesis by (simp add: wf_df_def)
qed

lemma wf_add_columns:
  "wf_df result \<Longrightarrow> add_columns result df items = Inr r \<Longrightarrow> wf_df r"
proof (induction items arbitrary: result)
  case Nil
  then show ?case by simp
next
  case (Cons item items)
  obtain orig new where item: "item = (orig, new)" by (cases item)
  from Cons.prems(2) item obtain vs where
    "add_columns (setitem result new vs) df items = Inr r"
    by (auto split: sum.splits)
  with Cons.IH [of "setitem result new vs"] Cons.prems(1) show ?case
    by (simp add: wf_setitem)
qed

lemma wf_merge_loop:
  "wf_df result \<Longrightarrow> merge_loop ex result idx zs = Inr r \<Longrightarrow> wf_df r"
proof (induction zs arbitrary: result idx)
  case Nil
  then show ?case by simp
next
  case (Cons z zs)
  obtain df fn where z: "z = (df, fn)" by (cases z)
  from Cons.prems(2) z obtain r1 where
    step: "merge_step ex result idx df fn = Inr r1" and
    rest: "merge_loop ex r1 (Suc idx) zs = Inr r"
    by (auto split: sum.splits)
  from step Cons.prems(1) have "wf_df r1"
    by (auto simp: merge_step_def intro: wf_add_columns)
  from Cons.IH [OF this rest] show ?case .
qed

lemma wf_merge_dataframes:
  assumes "dfs \<noteq> [] \<Longrightarrow> wf_df (hd dfs)" and "merge_dataframes ex dfs file_names = Inr r"
  shows "wf_df r"
proof (cases dfs)
  case Nil
  with assms(2) show ?thesis by (simp add: merge_dataframes_def wf_DataFrame)
next
  case (Cons d ds)
  with assms(1) have d: "wf_df d" by simp
  show ?thesis
  proof (cases "find_matching_column ''channel'' (columns d)")
    case None
    with Cons assms(2) show ?thesis by (simp add: merge_dataframes_def wf_DataFrame)
  next
    case (Some c)
    with Cons assms(2) have "merge_loop ex d 2 (zip ds (drop 1 file_names)) = Inr r"
      by (simp add: merge_dataframes_def)
    with d show ?thesis by (rule wf_merge_loop)
  qed
qed

subsection \<open>The row count of the merged table\<close>





subsection \<open>The suffix of a later table\<close>

text \<open>
  Claim C2, at the input where the program departs from it. The file name
  \<^verbatim>\<open>Ex0.csv\<close> yields the exercise number 0; the test \<^verbatim>\<open>if ex_num\<close> of line 117 takes
  0 for false, and the column of the second table is named with the positional suffix
  \<^verbatim>\<open>_2\<close>, not with \<^verbatim>\<open>_Ex0\<close>. (\<open>suffix_of_cases\<close> gives the suffix for every
  extractor: \<^verbatim>\<open>_Ex<N>\<close> for a number other than 0, the position otherwise.)
\<close>

theorem merge_suffix_ex0:
  "extract_ex_number ''Ex0.csv'' = Some 0 \<and>
   merge_dataframes extract_ex_number
     [\<lparr>nrows = 1, cols = [(''Channel'', [Cell ''0'']), (''X'', [Cell ''5''])]\<rparr>,
      \<lparr>nrows = 1, cols = [(''Channel'', [Cell ''0'']), (''X'', [Cell ''7''])]\<rparr>]
     [''Ex1.csv'', ''Ex0.csv'']
   = Inr \<lparr>nrows = 1, cols = [(''Channel'', [Cell ''0'']), (''X'', [Cell ''5'']),
                              (''X_2'', [Cell ''7''])]\<rparr>"
  by code_simp




text \<open>
  The proviso on the matched columns. \<^verbatim>\<open>columns_to_add\<close> is keyed by the matched column,
  so a column that two roles match keeps the name of the later role only: a table with
  the columns \<^verbatim>\<open>Channel\<close> and \<^verbatim>\<open>xy\<close> gives the result \<^verbatim>\<open>Y_2\<close> and no \<^verbatim>\<open>X_2\<close>.
\<close>

lemma merge_step_shared_column:
  "merge_step extract_ex_number
     \<lparr>nrows = 1, cols = [(''Channel'', [Cell ''0''])]\<rparr> 2
     \<lparr>nrows = 1, cols = [(''Channel'', [Cell ''0'']), (''xy'', [Cell ''7''])]\<rparr> ''b.csv''
   = Inr \<lparr>nrows = 1, cols = [(''Channel'', [Cell ''0'']), (''Y_2'', [Cell ''7''])]\<rparr>"
  by code_simp

subsection \<open>The merge leaves its inputs unchanged\<close>

lemma objs_store [simp]: "objs (store h a df) = (objs h)(a := df)"
  by (simp add: store_def)

lemma fresh_store [simp]: "fresh (store h a df) = fresh h"
  by (simp add: store_def)

lemma store_store [simp]: "store (store h a df) a df' = store h a df'"
  by (simp add: store_def)

lemma store_same [simp]: "store h a (objs h a) = h"
  by (simp add: store_def)

lemma add_columns_heap_sim:
  assumes "df \<noteq> result"
  shows "add_columns_heap h result df items =
           map_sum (\<lambda>e. e) (store h result) (add_columns (objs h result) (objs h df) items)"
  using assms
proof (induction items arbitrary: h)
  case Nil
  show ?case by simp
next
  case (Cons item items)
  obtain orig new where item: "item = (orig, new)" by (cases item)
  show ?case
  proof (cases "getitem (objs h df) orig")
    case (Inl e)
    with item show ?thesis by simp
  next
    case (Inr vs)
    let ?h1 = "setitem_heap h result new vs"
    from Cons.prems have r: "objs ?h1 result = setitem (objs h result) new vs"
      and d: "objs ?h1 df = objs h df"
      by (simp_all add: setitem_heap_def)
    have u: "store ?h1 result = store h result"
      by (simp add: setitem_heap_def fun_eq_iff)
    from Cons.IH [OF Cons.prems, of ?h1] Inr item show ?thesis
      by (simp add: r d u)
  qed
qed

lemma merge_loop_heap_sim:
  assumes "\<forall>z\<in>set zs. fst z \<noteq> result"
  shows "merge_loop_heap ex h result idx zs =
           map_sum (\<lambda>e. e) (store h result)
             (merge_loop ex (objs h result) idx (map (\<lambda>z. (objs h (fst z), snd z)) zs))"
  using assms
proof (induction zs arbitrary: h idx)
  case Nil
  show ?case by simp
next
  case (Cons z zs)
  obtain df fn where z: "z = (df, fn)" by (cases z)
  with Cons.prems have ne: "df \<noteq> result" and rest: "\<forall>z\<in>set zs. fst z \<noteq> result"
    by simp_all
  let ?items = "columns_to_add (columns (objs h df)) (suffix_of ex idx fn)"
  show ?case
  proof (cases "add_columns (objs h result) (objs h df) ?items")
    case (Inl e)
    with z add_columns_heap_sim [OF ne, of h ?items] show ?thesis
      by (simp add: merge_step_def)
  next
    case (Inr r1)
    let ?h1 = "store h result r1"
    from Inr add_columns_heap_sim [OF ne, of h ?items]
    have s: "add_columns_heap h result df ?items = Inr ?h1" by simp
    have m: "map (\<lambda>z. (objs ?h1 (fst z), snd z)) zs = map (\<lambda>z. (objs h (fst z), snd z)) zs"
      using rest by (intro map_cong) auto
    have u: "store ?h1 result = store h result"
      by (simp add: fun_eq_iff)
    from Cons.IH [OF rest, of ?h1 "Suc idx"]
    have ih: "merge_loop_heap ex ?h1 result (Suc idx) zs =
        map_sum (\<lambda>e. e) (store h result)
          (merge_loop ex r1 (Suc idx) (map (\<lambda>z. (objs h (fst z), snd z)) zs))"
      unfolding m u by simp
    from z s Inr ih show ?thesis
      by (simp add: merge_step_def)
  qed
qed

text \<open>
  Claim C10. Over the store of objects, the merge of tables that exist (addresses below
  \<open>fresh\<close>) returns, and raises nothing; every input table, the first included, holds
  after the merge what it held before, as does every other object that existed; the
  result is a new object; and it holds the table that \<open>merge_dataframes\<close> computes from
  the values of the inputs.
\<close>

theorem merge_frame:
  assumes "\<forall>a\<in>set dfs. a < fresh h"
  shows "\<exists>r h'. merge_dataframes_heap ex h dfs file_names = Inr (r, h') \<and>
           (\<forall>a\<in>set dfs. objs h' a = objs h a) \<and>
           (\<forall>a. a < fresh h \<longrightarrow> objs h' a = objs h a) \<and>
           fresh h \<le> r \<and> r < fresh h' \<and>
           merge_dataframes ex (map (objs h) dfs) file_names = Inr (objs h' r)"
proof (cases dfs)
  case Nil
  then show ?thesis
    by (simp add: merge_dataframes_heap_def merge_dataframes_def alloc_def)
next
  case (Cons first_df rest)
  let ?h1 = "\<lparr>objs = (objs h)(fresh h := objs h first_df), fresh = Suc (fresh h)\<rparr>"
  let ?zs = "zip rest (drop 1 file_names)"
  from assms Cons have f: "first_df < fresh h" and r: "\<forall>a\<in>set rest. a < fresh h"
    by simp_all
  have old: "objs ?h1 a = objs h a" if "a < fresh h" for a using that by simp
  show ?thesis
  proof (cases "find_matching_column ''channel'' (columns (objs h first_df))")
    case None
    with Cons f assms show ?thesis
      by (auto simp: merge_dataframes_heap_def merge_dataframes_def alloc_def)
  next
    case (Some c)
    have ne: "\<forall>z\<in>set ?zs. fst z \<noteq> fresh h"
      using r by (auto dest!: set_zip_leftD)
    have m: "map (\<lambda>z. (objs ?h1 (fst z), snd z)) ?zs
               = zip (map (objs h) rest) (drop 1 file_names)"
    proof -
      have "map (\<lambda>z. (objs ?h1 (fst z), snd z)) ?zs = map (\<lambda>z. (objs h (fst z), snd z)) ?zs"
        using ne by (intro map_cong) auto
      also have "\<dots> = zip (map (objs h) rest) (drop 1 file_names)"
        by (simp add: zip_map1 case_prod_unfold)
      finally show ?thesis .
    qed
    obtain res where res: "merge_loop ex (objs h first_df) 2
        (zip (map (objs h) rest) (drop 1 file_names)) = Inr res"
      using merge_loop_total by blast
    let ?h2 = "store ?h1 (fresh h) res"
    from merge_loop_heap_sim [OF ne, of ex ?h1 2] m res
    have loop: "merge_loop_heap ex ?h1 (fresh h) 2 ?zs = Inr ?h2" by simp
    from f have c1: "find_matching_column ''channel'' (columns (objs ?h1 first_df)) = Some c"
      using Some by simp
    from Cons c1 loop have heap: "merge_dataframes_heap ex h dfs file_names = Inr (fresh h, ?h2)"
      by (simp add: merge_dataframes_heap_def alloc_def)
    from Cons Some res have pure: "merge_dataframes ex (map (objs h) dfs) file_names = Inr res"
      by (simp add: merge_dataframes_def)
    have frame: "objs ?h2 a = objs h a" if "a < fresh h" for a using that by simp
    with assms have inputs: "\<forall>a\<in>set dfs. objs ?h2 a = objs h a" by blast
    from heap pure frame inputs show ?thesis by simp
  qed
qed

theorem merge_frame_witness:
  "\<exists>r h'. merge_dataframes_heap extract_ex_number
      \<lparr>objs = (\<lambda>_. DataFrame)
          (0 := \<lparr>nrows = 1, cols = [(''Channel'', [Cell ''0'']), (''X'', [Cell ''5''])]\<rparr>,
           1 := \<lparr>nrows = 1, cols = [(''Channel'', [Cell ''0'']), (''X'', [Cell ''7''])]\<rparr>),
        fresh = 2\<rparr> [0, 1] [''Ex1.csv'', ''Ex2.csv''] = Inr (r, h') \<and>
     objs h' 0 = \<lparr>nrows = 1, cols = [(''Channel'', [Cell ''0'']), (''X'', [Cell ''5''])]\<rparr> \<and>
     objs h' 1 = \<lparr>nrows = 1, cols = [(''Channel'', [Cell ''0'']), (''X'', [Cell ''7''])]\<rparr> \<and>
     2 \<le> r"
proof -
  let ?h = "\<lparr>objs = (\<lambda>_. DataFrame)
          (0 := \<lparr>nrows = 1, cols = [(''Channel'', [Cell ''0'']), (''X'', [Cell ''5''])]\<rparr>,
           1 := \<lparr>nrows = 1, cols = [(''Channel'', [Cell ''0'']), (''X'', [Cell ''7''])]\<rparr>),
        fresh = 2\<rparr>"
  have a: "\<forall>a\<in>set [0, 1]. a < fresh ?h" by simp
  from merge_frame [OF a, of extract_ex_number "[''Ex1.csv'', ''Ex2.csv'']"]
  obtain r h' where
    "merge_dataframes_heap extract_ex_number ?h [0, 1] [''Ex1.csv'', ''Ex2.csv''] = Inr (r, h')"
    "\<forall>a\<in>set [0, 1]. objs h' a = objs ?h a" "fresh ?h \<le> r"
    by blast
  then show ?thesis by (intro exI [of _ r] exI [of _ h']) simp
qed


subsection \<open>Construction\<close>

text \<open>
  Claim C8. The constructor raises exactly when the root path does not exist or is not a
  directory: \<^verbatim>\<open>FileNotFoundError\<close> for a path that does not exist,
  \<^verbatim>\<open>NotADirectoryError\<close> for one that exists and is a file. For a directory it
  succeeds, whatever the entries of the directory are: the check looks at the root only,
  no folder has been scanned when it is made, and without the object it returns there is
  nothing to run.
\<close>

theorem init_checks_root:
  "(fs root = None \<longrightarrow> init fs here root = Inl (FileNotFoundError root)) \<and>
   (\<forall>c. fs root = Some (File c) \<longrightarrow> init fs here root = Inl (NotADirectoryError root)) \<and>
   (\<forall>entries. fs root = Some (Dir entries) \<longrightarrow>
      init fs here root = Inr \<lparr>root_path = root, project_dir = here\<rparr>) \<and>
   ((\<exists>e. init fs here root = Inl e) \<longleftrightarrow> \<not> exists fs root \<or> \<not> is_dir fs root)"
proof (cases "fs root")
  case None
  then show ?thesis by (simp add: init_def exists_def is_dir_def)
next
  case (Some n)
  then show ?thesis by (cases n) (simp_all add: init_def exists_def is_dir_def)
qed

theorem init_checks_root_witness:
  "init (\<lambda>p. if p = ''/data'' then Some (Dir [(''A'', Dir [])])
              else if p = ''/notes.txt'' then Some (File (Unreadable (ParserError ''text'')))
              else None) ''/app'' ''/missing'' = Inl (FileNotFoundError ''/missing'') \<and>
   init (\<lambda>p. if p = ''/data'' then Some (Dir [(''A'', Dir [])])
              else if p = ''/notes.txt'' then Some (File (Unreadable (ParserError ''text'')))
              else None) ''/app'' ''/notes.txt'' = Inl (NotADirectoryError ''/notes.txt'') \<and>
   init (\<lambda>p. if p = ''/data'' then Some (Dir [(''A'', Dir [])])
              else if p = ''/notes.txt'' then Some (File (Unreadable (ParserError ''text'')))
              else None) ''/app'' ''/data'' = Inr \<lparr>root_path = ''/data'', project_dir = ''/app''\<rparr>"
proof -
  let ?fs = "\<lambda>p. if p = ''/data'' then Some (Dir [(''A'', Dir [])])
              else if p = ''/notes.txt'' then Some (File (Unreadable (ParserError ''text'')))
              else None"
  have a: "?fs ''/missing'' = None" by simp
  have b: "?fs ''/notes.txt'' = Some (File (Unreadable (ParserError ''text'')))" by simp
  have c: "?fs ''/data'' = Some (Dir [(''A'', Dir [])])" by simp
  from init_checks_root [of ?fs "''/missing''" "''/app''"] a
  have 1: "init ?fs ''/app'' ''/missing'' = Inl (FileNotFoundError ''/missing'')" by blast
  from init_checks_root [of ?fs "''/notes.txt''" "''/app''"] b
  have 2: "init ?fs ''/app'' ''/notes.txt'' = Inl (NotADirectoryError ''/notes.txt'')" by blast
  from init_checks_root [of ?fs "''/data''" "''/app''"] c
  have 3: "init ?fs ''/app'' ''/data'' = Inr \<lparr>root_path = ''/data'', project_dir = ''/app''\<rparr>" by blast
  from 1 2 3 show ?thesis by blast
qed

text \<open>A merger that was constructed can list its class folders.\<close>

lemma init_get_class_folders:
  "init fs here root = Inr self \<Longrightarrow> \<exists>class_folders. get_class_folders fs self = Inr class_folders"
  by (auto simp: init_def exists_def is_dir_def get_class_folders_def iterdir_def
      split: if_splits option.splits fsnode.splits)

subsection \<open>Safe reading and the class processor\<close>

lemma read_csv_safely_cases:
  "read_csv_safely p = (case read_csv (snd p) of Inl e \<Rightarrow> (DataFrame, False) | Inr df \<Rightarrow> (df, True))"
  by (simp add: read_csv_safely_def split: sum.splits)

lemma read_files_eq:
  "read_files ex ps (dfs, names, infos) =
     (dfs @ map (\<lambda>p. fst (read_csv_safely p)) (filter (\<lambda>p. snd (read_csv_safely p)) ps),
      names @ map fst (filter (\<lambda>p. snd (read_csv_safely p)) ps),
      infos @ map (info_of ex) (filter (\<lambda>p. snd (read_csv_safely p)) ps))"
proof (induction ps arbitrary: dfs names infos)
  case Nil
  then show ?case by simp
next
  case (Cons p ps)
  obtain df ok where r: "read_csv_safely p = (df, ok)" by (cases "read_csv_safely p")
  with Cons show ?case by (simp add: Let_def info_of_def)
qed

lemma process_class_no_csv:
  "get_csv_files nsort cf = [] \<Longrightarrow>
     process_class nsort ex cf =
       Inr \<lparr>class_name = fst cf, files = [], total_rows = None, total_columns = None,
            merged_df = DataFrame\<rparr>"
  by (simp add: process_class_def)

lemma process_class_merged:
  "\<exists>meta. process_class nsort ex cf = Inr meta \<and> class_name meta = fst cf \<and>
     merge_dataframes ex
       (map (\<lambda>p. fst (read_csv_safely p))
          (filter (\<lambda>p. snd (read_csv_safely p)) (get_csv_files nsort cf)))
       (map fst (filter (\<lambda>p. snd (read_csv_safely p)) (get_csv_files nsort cf)))
       = Inr (merged_df meta) \<and>
     map fi_name (files meta)
       = map fst (filter (\<lambda>p. snd (read_csv_safely p)) (get_csv_files nsort cf))"
proof -
  let ?ps = "get_csv_files nsort cf"
  let ?ok = "filter (\<lambda>p. snd (read_csv_safely p)) ?ps"
  let ?dfs = "map (\<lambda>p. fst (read_csv_safely p)) ?ok"
  obtain m where m: "merge_dataframes ex ?dfs (map fst ?ok) = Inr m"
    using merge_dataframes_total by blast
  have names: "map fi_name (map (info_of ex) ?ok) = map fst ?ok"
    by (simp add: info_of_def comp_def)
  show ?thesis
  proof (cases "?ps = []")
    case True
    then show ?thesis
      by (simp add: process_class_def merge_dataframes_def)
  next
    case False
    show ?thesis
    proof (cases "?dfs = []")
      case True
      with False m names show ?thesis
        by (simp add: process_class_def read_files_eq [of ex ?ps "[]" "[]" "[]", simplified]
              merge_dataframes_def)
    next
      case False
      with \<open>?ps \<noteq> []\<close> m names show ?thesis
        by (simp add: process_class_def read_files_eq [of ex ?ps "[]" "[]" "[]", simplified])
    qed
  qed
qed

text \<open>
  Claim C6. When \<^verbatim>\<open>pd.read_csv\<close> raises, \<open>read_csv_safely\<close> returns the empty table
  with the flag \<^verbatim>\<open>False\<close> (and the table with \<^verbatim>\<open>True\<close> when it does not); it is a
  total function, so nothing propagates. The class processor returns, and the table it
  reports is the merge of exactly the files whose flag is \<^verbatim>\<open>True\<close>, in the order of the
  sorted listing; the per-file descriptors name those files and no others.
\<close>

theorem read_failure_isolated:
  "(read_csv (snd file_path) = Inl e \<longrightarrow> read_csv_safely file_path = (DataFrame, False)) \<and>
   (read_csv (snd file_path) = Inr df \<longrightarrow> read_csv_safely file_path = (df, True)) \<and>
   (\<exists>meta. process_class nsort ex class_folder = Inr meta \<and>
      merge_dataframes ex
        (map (\<lambda>p. fst (read_csv_safely p))
           (filter (\<lambda>p. snd (read_csv_safely p)) (get_csv_files nsort class_folder)))
        (map fst (filter (\<lambda>p. snd (read_csv_safely p)) (get_csv_files nsort class_folder)))
        = Inr (merged_df meta) \<and>
      map fi_name (files meta)
        = map fst (filter (\<lambda>p. snd (read_csv_safely p)) (get_csv_files nsort class_folder)))"
  using process_class_merged [of nsort ex class_folder]
  by (auto simp: read_csv_safely_def)

theorem read_failure_isolated_witness:
  "read_csv_safely (''Ex2.csv'', File (Unreadable (ParserError ''bad line''))) = (DataFrame, False) \<and>
   (\<exists>meta. process_class (\<lambda>files. files) extract_ex_number
       (''A'', Dir [(''Ex1.csv'', File (Loaded \<lparr>nrows = 1, cols = [(''Channel'', [Cell ''0'']), (''X'', [Cell ''5''])]\<rparr>)),
                    (''Ex2.csv'', File (Unreadable (ParserError ''bad line''))),
                    (''Ex3.csv'', File (Loaded \<lparr>nrows = 1, cols = [(''Channel'', [Cell ''0'']), (''X'', [Cell ''7''])]\<rparr>))])
       = Inr meta \<and>
     merged_df meta = \<lparr>nrows = 1, cols = [(''Channel'', [Cell ''0'']), (''X'', [Cell ''5'']),
                                            (''X_Ex3'', [Cell ''7''])]\<rparr> \<and>
     map fi_name (files meta) = [''Ex1.csv'', ''Ex3.csv''])"
proof -
  let ?bad = "(''Ex2.csv'', File (Unreadable (ParserError ''bad line'')))"
  let ?cf = "(''A'', Dir [(''Ex1.csv'', File (Loaded \<lparr>nrows = 1, cols = [(''Channel'', [Cell ''0'']), (''X'', [Cell ''5''])]\<rparr>)),
                    ?bad,
                    (''Ex3.csv'', File (Loaded \<lparr>nrows = 1, cols = [(''Channel'', [Cell ''0'']), (''X'', [Cell ''7''])]\<rparr>))])"
  let ?ok = "filter (\<lambda>p. snd (read_csv_safely p)) (get_csv_files (\<lambda>files. files) ?cf)"
  note t = read_failure_isolated [of ?bad "ParserError ''bad line''" undefined "\<lambda>files. files"
      extract_ex_number ?cf]
  have r: "read_csv (snd ?bad) = Inl (ParserError ''bad line'')" by simp
  have m: "merge_dataframes extract_ex_number (map (\<lambda>p. fst (read_csv_safely p)) ?ok) (map fst ?ok)
      = Inr \<lparr>nrows = 1, cols = [(''Channel'', [Cell ''0'']), (''X'', [Cell ''5'']),
                                 (''X_Ex3'', [Cell ''7''])]\<rparr>"
    by code_simp
  have n: "map fst ?ok = [''Ex1.csv'', ''Ex3.csv'']" by code_simp
  from t r have "read_csv_safely ?bad = (DataFrame, False)" by blast
  moreover from t obtain meta where
    "process_class (\<lambda>files. files) extract_ex_number ?cf = Inr meta"
    "merge_dataframes extract_ex_number (map (\<lambda>p. fst (read_csv_safely p)) ?ok) (map fst ?ok)
       = Inr (merged_df meta)"
    "map fi_name (files meta) = map fst ?ok"
    by blast
  ultimately show ?thesis using m n by (intro conjI exI [of _ meta]) simp_all
qed

subsection \<open>The run: output files\<close>



lemma to_csv_exists: "to_csv out d name df d \<noteq> None"
  by (simp add: to_csv_def)




lemma process_class_total:
  "\<exists>meta. process_class nsort ex cf = Inr meta \<and> class_name meta = fst cf"
  using process_class_merged [of nsort ex cf] by blast

lemma run_loop_metadata:
  "\<exists>metas out'. run_loop nsort ex d cfs acc out = (Inr (acc @ metas), out') \<and>
     list_all2 (\<lambda>cf meta. process_class nsort ex cf = Inr meta) cfs metas"
proof (induction cfs arbitrary: acc out)
  case Nil
  then show ?case by simp
next
  case (Cons cf cfs)
  obtain meta where meta: "process_class nsort ex cf = Inr meta"
    using process_class_total by blast
  let ?out1 = "if \<not> empty (merged_df meta)
      then to_csv out d (class_name meta @ ''_merged.csv'') (merged_df meta) else out"
  from Cons.IH [of "acc @ [meta]" ?out1] obtain metas out' where
    "run_loop nsort ex d cfs (acc @ [meta]) ?out1 = (Inr ((acc @ [meta]) @ metas), out')"
    "list_all2 (\<lambda>cf meta. process_class nsort ex cf = Inr meta) cfs metas"
    by blast
  with meta show ?case
    by (intro exI [of _ "meta # metas"] exI [of _ out']) simp
qed






subsection \<open>The run: the summary\<close>

lemma list_all2_right: "list_all2 P xs ys \<Longrightarrow> y \<in> set ys \<Longrightarrow> \<exists>x\<in>set xs. P x y"
  by (induction rule: list_all2_induct) auto

lemma list_all2_left: "list_all2 P xs ys \<Longrightarrow> x \<in> set xs \<Longrightarrow> \<exists>y\<in>set ys. P x y"
  by (induction rule: list_all2_induct) auto

lemma process_class_totals:
  assumes "process_class nsort ex cf = Inr meta"
  shows "(total_rows meta = None) = (get_csv_files nsort cf = [])"
    and "(total_columns meta = None) = (get_csv_files nsort cf = [])"
  using assms
  by (auto simp: process_class_def Let_def split: if_splits prod.splits sum.splits)

lemma print_summary_raises:
  assumes "\<forall>m\<in>set metas. total_columns m = None \<longrightarrow> total_rows m = None"
      and "\<exists>m\<in>set metas. total_rows m = None"
  shows "print_summary metas = Inl (KeyError ''total_rows'')"
  using assms
proof (induction metas)
  case Nil
  then show ?case by simp
next
  case (Cons m metas)
  show ?case
  proof (cases "total_rows m")
    case None
    then show ?thesis by (simp add: summary_of_def)
  next
    case (Some r)
    with Cons.prems obtain c where c: "total_columns m = Some c" by (cases "total_columns m") auto
    from Some Cons.prems have "\<exists>m\<in>set metas. total_rows m = None" by auto
    with Cons have "print_summary metas = Inl (KeyError ''total_rows'')" by simp
    with Some c show ?thesis by (simp add: summary_of_def)
  qed
qed

lemma print_summary_completes:
  assumes "\<forall>m\<in>set metas. total_rows m \<noteq> None \<and> total_columns m \<noteq> None"
  shows "\<exists>ls. print_summary metas = Inr ls"
  using assms
proof (induction metas)
  case Nil
  then show ?case by simp
next
  case (Cons m metas)
  then obtain ls where "print_summary metas = Inr ls" by auto
  with Cons.prems show ?case by (auto simp: summary_of_def)
qed

lemma run_summary:
  assumes "get_class_folders fs self = Inr class_folders" and "class_folders \<noteq> []"
  shows "\<exists>metas. fst (run nsort ex fs self output_dir_arg out) = print_summary metas \<and>
           list_all2 (\<lambda>cf meta. process_class nsort ex cf = Inr meta)
             (sort_key fst class_folders) metas"
proof -
  let ?d = "output_dir_of self output_dir_arg"
  obtain metas out2 where
    loop: "run_loop nsort ex ?d (sort_key fst class_folders) [] (mkdir out ?d) = (Inr metas, out2)"
    and all: "list_all2 (\<lambda>cf meta. process_class nsort ex cf = Inr meta)
                (sort_key fst class_folders) metas"
    using run_loop_metadata [of nsort ex ?d "sort_key fst class_folders" "[]" "mkdir out ?d"]
    by auto
  from assms loop have "fst (run nsort ex fs self output_dir_arg out) = print_summary metas"
    by (simp add: run_def Let_def)
  with all show ?thesis by blast
qed

text \<open>
  Claim C1, at the inputs where the program departs from it. A class folder with no CSV
  file gets the dictionary of line 158, which has no key \<^verbatim>\<open>total_rows\<close>; the classes
  are all processed and the output files written, but \<^verbatim>\<open>print_summary\<close> then raises
  \<^verbatim>\<open>KeyError\<close> at line 263, and the run ends with that exception. (A class none of whose
  files loads gets the totals 0 and does not stop the run: \<open>run_completes\<close>.)
\<close>

theorem run_no_csv_raises:
  assumes "get_class_folders fs self = Inr class_folders"
      and "cf \<in> set class_folders"
      and "get_csv_files nsort cf = []"
  shows "fst (run nsort ex fs self output_dir_arg out) = Inl (KeyError ''total_rows'')"
proof -
  from assms(2) have ne: "class_folders \<noteq> []" by auto
  from run_summary [OF assms(1) ne, of nsort ex output_dir_arg out] obtain metas where
    r: "fst (run nsort ex fs self output_dir_arg out) = print_summary metas"
    and all: "list_all2 (\<lambda>cf meta. process_class nsort ex cf = Inr meta)
                (sort_key fst class_folders) metas"
    by blast
  have a: "\<forall>m\<in>set metas. total_columns m = None \<longrightarrow> total_rows m = None"
  proof
    fix m assume "m \<in> set metas"
    from list_all2_right [OF all this] obtain c where "process_class nsort ex c = Inr m"
      by blast
    then show "total_columns m = None \<longrightarrow> total_rows m = None"
      by (simp add: process_class_totals)
  qed
  from assms(2) have "cf \<in> set (sort_key fst class_folders)" by simp
  from list_all2_left [OF all this] obtain m where
    m: "m \<in> set metas" "process_class nsort ex cf = Inr m"
    by blast
  with assms(3) have "total_rows m = None" by (simp add: process_class_totals)
  with m(1) have "\<exists>m\<in>set metas. total_rows m = None" by blast
  with a r show ?thesis by (simp add: print_summary_raises)
qed

theorem run_no_csv_raises_witness:
  "fst (run (\<lambda>files. files) extract_ex_number
         (\<lambda>p. if p = ''/data'' then Some (Dir [(''A'', Dir [])]) else None)
         \<lparr>root_path = ''/data'', project_dir = ''/app''\<rparr> None (\<lambda>_. None))
     = Inl (KeyError ''total_rows'')"
proof -
  let ?fs = "\<lambda>p. if p = ''/data'' then Some (Dir [(''A'', Dir [])]) else None"
  let ?self = "\<lparr>root_path = ''/data'', project_dir = ''/app''\<rparr>"
  have g: "get_class_folders ?fs ?self = Inr [(''A'', Dir [])]"
    by (simp add: get_class_folders_def iterdir_def)
  have m: "(''A'', Dir []) \<in> set [(''A'', Dir [])]" by simp
  have c: "get_csv_files (\<lambda>files. files) (''A'', Dir []) = []"
    by (simp add: get_csv_files_def)
  from run_no_csv_raises [OF g m c] show ?thesis .
qed

lemma run_completes:
  assumes "get_class_folders fs self = Inr class_folders"
      and "\<forall>cf\<in>set class_folders. get_csv_files nsort cf \<noteq> []"
  shows "\<exists>ls. fst (run nsort ex fs self output_dir_arg out) = Inr ls"
proof (cases "class_folders = []")
  case True
  with assms(1) show ?thesis by (simp add: run_def Let_def)
next
  case False
  from run_summary [OF assms(1) False, of nsort ex output_dir_arg out] obtain metas where
    r: "fst (run nsort ex fs self output_dir_arg out) = print_summary metas"
    and all: "list_all2 (\<lambda>cf meta. process_class nsort ex cf = Inr meta)
                (sort_key fst class_folders) metas"
    by blast
  have "\<forall>m\<in>set metas. total_rows m \<noteq> None \<and> total_columns m \<noteq> None"
  proof
    fix m assume "m \<in> set metas"
    from list_all2_right [OF all this] obtain c where
      c: "c \<in> set (sort_key fst class_folders)" "process_class nsort ex c = Inr m"
      by blast
    with assms(2) have "get_csv_files nsort c \<noteq> []" by simp
    with c(2) show "total_rows m \<noteq> None \<and> total_columns m \<noteq> None"
      by (simp add: process_class_totals)
  qed
  with r show ?thesis by (simp add: print_summary_completes)
qed

end
